theory Spec2Isabelle
  imports Main "HOL-Library.AList"
begin

section \<open>Python values, exceptions and the outcome of a subprocess\<close>

text \<open>
  The script \<^verbatim>\<open>solidity_analyzer.py\<close> builds dictionaries of strings, booleans and
  whatever \<^verbatim>\<open>json.loads\<close> returns, and dumps them as JSON. A Python value is a
  \<open>pyval\<close>; a dictionary is an association list in insertion order (all keys the
  script and the JSON parser use are strings). The script never computes with a
  float: a \<open>pyfloat\<close> is what an IEEE double can be, a signed mantissa times a power
  of two, an infinity or a NaN.
\<close>

datatype pyfloat = Finite bool nat int | Infinity bool | NaN

datatype pyval =
    VNone
  | VBool bool
  | VInt int
  | VFloat pyfloat
  | VStr string
  | VList "pyval list"
  | VDict "(string \<times> pyval) list"

text \<open>
  A raised exception carries the text \<^verbatim>\<open>str(e)\<close>. The handlers of the script are
  \<^verbatim>\<open>except Exception as e\<close>: they catch an instance of \<^verbatim>\<open>Exception\<close>
  (\<open>Exc\<close>: \<^verbatim>\<open>FileNotFoundError\<close>, \<^verbatim>\<open>OSError\<close>, \<^verbatim>\<open>JSONDecodeError\<close>, ...)
  and let through what derives from \<^verbatim>\<open>BaseException\<close> only (\<open>BaseExc\<close>:
  \<^verbatim>\<open>KeyboardInterrupt\<close>, \<^verbatim>\<open>SystemExit\<close>).
\<close>

datatype pyexc = Exc string | BaseExc string

text \<open>\<^verbatim>\<open>subprocess.CompletedProcess\<close>, with \<^verbatim>\<open>text=True\<close> and both streams piped.\<close>

record completed_process =
  returncode :: int
  stdout :: string
  stderr :: string

text \<open>
  The world outside the script is a parameter of the model: \<^verbatim>\<open>subprocess.run\<close> maps
  the argument vector to the completed process or to the exception it raises (the
  binary is missing, the operating system refuses, the output cannot be decoded), and
  \<^verbatim>\<open>json.loads\<close> maps a text to the parsed value or to the exception it raises.
\<close>

type_synonym subprocess_run = "string list \<Rightarrow> pyexc + completed_process"
type_synonym json_loads = "string \<Rightarrow> pyexc + pyval"

text \<open>\<^verbatim>\<open>try: body except Exception as e: handler\<close>.\<close>

definition except_Exception :: "pyexc + pyval \<Rightarrow> (string \<Rightarrow> pyval) \<Rightarrow> pyexc + pyval" where
  "except_Exception body handler =
     (case body of
        Inr v \<Rightarrow> Inr v
      | Inl (Exc e) \<Rightarrow> Inr (handler e)
      | Inl (BaseExc e) \<Rightarrow> Inl (BaseExc e))"

section \<open>The two checks\<close>

text \<open>\<^verbatim>\<open>{"file": sol_file, "success": False, "error": str(e)}\<close>, the handler of both checks.\<close>

definition error_result :: "string \<Rightarrow> string \<Rightarrow> pyval" where
  "error_result sol_file e =
     VDict [(''file'', VStr sol_file), (''success'', VBool False), (''error'', VStr e)]"

text \<open>The body of the \<^verbatim>\<open>try\<close> of \<^verbatim>\<open>run_solc_check\<close>.\<close>

definition solc_try :: "subprocess_run \<Rightarrow> string \<Rightarrow> pyexc + pyval" where
  "solc_try run sol_file =
     (case run [''solc'', ''--ast-compact-json'', ''--optimize'', sol_file] of
        Inl e \<Rightarrow> Inl e
      | Inr result \<Rightarrow>
          (let success = (returncode result = 0) in
           Inr (VDict [(''file'', VStr sol_file),
                       (''success'', VBool success),
                       (''solc_output'',
                          VStr (if success then stdout result else stderr result))])))"

definition run_solc_check :: "subprocess_run \<Rightarrow> string \<Rightarrow> pyexc + pyval" where
  "run_solc_check run sol_file = except_Exception (solc_try run sol_file) (error_result sol_file)"

text \<open>
  The body of the \<^verbatim>\<open>try\<close> of \<^verbatim>\<open>run_slither_check\<close>. A Python string is true when
  it is not empty.
\<close>

definition slither_try :: "subprocess_run \<Rightarrow> json_loads \<Rightarrow> string \<Rightarrow> pyexc + pyval" where
  "slither_try run loads sol_file =
     (case run [''slither'', sol_file, ''--json'', ''-''] of
        Inl e \<Rightarrow> Inl e
      | Inr result \<Rightarrow>
          (let success = (returncode result = 0);
               output = (if stdout result \<noteq> [] then stdout result else stderr result)
           in case (if output \<noteq> [] then loads output else Inr (VDict [])) of
                Inl e \<Rightarrow> Inl e
              | Inr parsed \<Rightarrow>
                  Inr (VDict [(''file'', VStr sol_file),
                              (''success'', VBool success),
                              (''slither_output'', parsed)])))"

definition run_slither_check :: "subprocess_run \<Rightarrow> json_loads \<Rightarrow> string \<Rightarrow> pyexc + pyval" where
  "run_slither_check run loads sol_file =
     except_Exception (slither_try run loads sol_file) (error_result sol_file)"

section \<open>Paths\<close>

text \<open>
  A \<^verbatim>\<open>pathlib.Path\<close> is modelled by its \<^verbatim>\<open>parts\<close>. The paths the script handles are
  relative POSIX paths below \<^verbatim>\<open>Path("./contracts-evaluation")\<close>, whose only part is
  \<^verbatim>\<open>contracts-evaluation\<close>; \<^verbatim>\<open>str\<close> joins the parts with a slash.
\<close>

fun join :: "string \<Rightarrow> string list \<Rightarrow> string" where
  "join sep [] = []"
| "join sep [x] = x"
| "join sep (x # y # ys) = x @ sep @ join sep (y # ys)"

definition str_path :: "string list \<Rightarrow> string" where
  "str_path parts = (if parts = [] then ''.'' else join ''/'' parts)"

text \<open>\<^verbatim>\<open>str.rfind\<close> for one character: the highest index where it stands, or \<open>-1\<close>.\<close>

definition rfind :: "string \<Rightarrow> char \<Rightarrow> int" where
  "rfind s c =
     (if c \<in> set s then int (length s) - 1 - int (length (takeWhile (\<lambda>x. x \<noteq> c) (rev s)))
      else - 1)"

text \<open>
  \<^verbatim>\<open>PurePath.name\<close> is the last part, and \<^verbatim>\<open>PurePath.stem\<close> is
  \<^verbatim>\<open>i = name.rfind('.'); name[:i] if 0 < i < len(name) - 1 else name\<close>.
\<close>

definition name :: "string list \<Rightarrow> string" where
  "name parts = (if parts = [] then [] else last parts)"

definition stem :: "string list \<Rightarrow> string" where
  "stem parts =
     (let n = name parts; i = rfind n (CHR ''.'')
      in if 0 < i \<and> i < int (length n) - 1 then take (nat i) n else n)"

section \<open>The batch\<close>

text \<open>
  What the script changes: the console it prints to and the files it writes. Creating
  the report directory, and a failure to open or write the report file, are not
  modelled.
\<close>

record world =
  console :: "string list"
  files :: "string \<rightharpoonup> string"

text \<open>
  \<^verbatim>\<open>print(line)\<close> can raise (the console cannot encode the line, the pipe is
  closed), and both calls of the script stand outside every \<^verbatim>\<open>try\<close>. What the
  console does with a line is a parameter, like the tools: \<open>None\<close> when the line is
  written, the exception otherwise.
\<close>

type_synonym console_write = "string \<Rightarrow> pyexc option"

definition print :: "console_write \<Rightarrow> string \<Rightarrow> world \<Rightarrow> pyexc + world" where
  "print emit line w =
     (case emit line of
        Some e \<Rightarrow> Inl e
      | None \<Rightarrow> Inr (w\<lparr>console := console w @ [line]\<rparr>))"

definition REPORT_FILE :: string where
  "REPORT_FILE = ''analysis_reports/full_analysis_report.json''"

text \<open>\<^verbatim>\<open>json.dumps(obj, indent=n)\<close>, the text \<^verbatim>\<open>json.dump\<close> writes: a parameter.\<close>

type_synonym json_dumps = "pyval \<Rightarrow> int \<Rightarrow> string"

text \<open>
  The loop of \<^verbatim>\<open>analyze_all_contracts\<close> over the paths that
  \<^verbatim>\<open>Path(BASE_DIR).rglob("*.sol")\<close> yields, in that order. The state is the dictionary
  \<^verbatim>\<open>combined_results\<close> and the world. Assigning to a key of a dictionary replaces the
  value of a key that is there and appends a new key: \<open>AList.update\<close>. An exception
  of the progress line's \<^verbatim>\<open>print\<close>, and one that a check lets through, end the
  loop.
\<close>

fun analyze_loop ::
  "subprocess_run \<Rightarrow> json_loads \<Rightarrow> console_write \<Rightarrow> string list list
     \<Rightarrow> (string \<times> pyval) list \<times> world \<Rightarrow> pyexc + (string \<times> pyval) list \<times> world" where
  "analyze_loop run loads emit [] (combined_results, w) = Inr (combined_results, w)"
| "analyze_loop run loads emit (parts # rest) (combined_results, w) =
     (if length parts < 3 then analyze_loop run loads emit rest (combined_results, w)
      else
        let model = parts ! 1;
            contract = stem parts
        in case print emit (''Analyzing '' @ model @ ''/'' @ contract @ ''...'') w of
             Inl e \<Rightarrow> Inl e
           | Inr w1 \<Rightarrow>
               (case run_solc_check run (str_path parts) of
                  Inl e \<Rightarrow> Inl e
                | Inr solc \<Rightarrow>
                    (case run_slither_check run loads (str_path parts) of
                       Inl e \<Rightarrow> Inl e
                     | Inr slither \<Rightarrow>
                         analyze_loop run loads emit rest
                           (AList.update (model @ ''/'' @ contract)
                              (VDict [(''solc'', solc), (''slither'', slither)])
                              combined_results,
                            w1))))"

text \<open>The dictionary \<^verbatim>\<open>combined_results\<close> at the end of the loop: the aggregate report.\<close>

definition aggregate ::
  "subprocess_run \<Rightarrow> json_loads \<Rightarrow> console_write \<Rightarrow> string list list
     \<Rightarrow> pyexc + (string \<times> pyval) list" where
  "aggregate run loads emit discovered =
     (case analyze_loop run loads emit discovered ([], \<lparr>console = [], files = Map.empty\<rparr>) of
        Inl e \<Rightarrow> Inl e
      | Inr (combined_results, w) \<Rightarrow> Inr combined_results)"

text \<open>
  \<^verbatim>\<open>analyze_all_contracts\<close>: the loop, then the report file opened with mode
  \<^verbatim>\<open>"w"\<close> and written, then the last line on the console (its first three bytes are
  the check mark in UTF-8).
\<close>

definition analyze_all_contracts ::
  "subprocess_run \<Rightarrow> json_loads \<Rightarrow> json_dumps \<Rightarrow> console_write \<Rightarrow> string list list \<Rightarrow> world
     \<Rightarrow> pyexc + world" where
  "analyze_all_contracts run loads dumps emit discovered w =
     (case analyze_loop run loads emit discovered ([], w) of
        Inl e \<Rightarrow> Inl e
      | Inr (combined_results, w1) \<Rightarrow>
          (let w2 = w1\<lparr>files := (files w1)(REPORT_FILE \<mapsto> dumps (VDict combined_results) 2)\<rparr>
           in print emit
                ([CHR 0xE2, CHR 0x9C, CHR 0x85] @ '' Full report written to '' @ REPORT_FILE) w2))"

text \<open>The key under which the loop stores the results of a path.\<close>

definition key_of :: "string list \<Rightarrow> string" where
  "key_of parts = parts ! 1 @ ''/'' @ stem parts"

text \<open>\<^verbatim>\<open>PurePath.parent.name\<close>: the name of the directory the file lies in.\<close>

definition parent_name :: "string list \<Rightarrow> string" where
  "parent_name parts = name (butlast parts)"

text \<open>A raised exception that \<^verbatim>\<open>except Exception\<close> catches, or no exception at all.\<close>

fun catchable :: "pyexc + 'a \<Rightarrow> bool" where
  "catchable (Inl (BaseExc e)) = False"
| "catchable (Inl (Exc e)) = True"
| "catchable (Inr v) = True"

text \<open>The progress line that the loop prints for a path.\<close>

definition progress_line :: "string list \<Rightarrow> string" where
  "progress_line parts = ''Analyzing '' @ key_of parts @ ''...''"

section \<open>Sample runs\<close>

text \<open>
  Tools as in the scenario of the specification: the compiler accepts every file but
  \<^verbatim>\<open>modelB/bar.sol\<close>; the linter prints an empty JSON object and exits with a
  nonzero code, and on \<^verbatim>\<open>modelB/bar.sol\<close> it prints a traceback on stderr and exits
  with zero.
\<close>

definition sample_run :: subprocess_run where
  "sample_run argv =
     (if take 1 argv = [''solc''] then
        (if ''contracts-evaluation/modelB/bar.sol'' \<in> set argv
         then Inr \<lparr>returncode = 1, stdout = '''', stderr = ''Error: Expected pragma''\<rparr>
         else Inr \<lparr>returncode = 0, stdout = ''AST'', stderr = ''''\<rparr>)
      else if take 1 argv = [''slither''] then
        (if ''contracts-evaluation/modelB/bar.sol'' \<in> set argv
         then Inr \<lparr>returncode = 0, stdout = '''', stderr = ''Traceback''\<rparr>
         else Inr \<lparr>returncode = 255, stdout = ''{}'', stderr = ''''\<rparr>)
      else Inl (Exc ''[Errno 2] No such file or directory''))"

text \<open>A parser that knows the empty object only.\<close>

definition sample_loads :: json_loads where
  "sample_loads s =
     (if s = ''{}'' then Inr (VDict [])
      else Inl (Exc ''Expecting value: line 1 column 1 (char 0)''))"

text \<open>No tool is installed.\<close>

definition tools_missing :: subprocess_run where
  "tools_missing argv = Inl (Exc ''[Errno 2] No such file or directory'')"

text \<open>Every tool exits with zero and prints nothing.\<close>

definition tools_silent :: subprocess_run where
  "tools_silent argv = Inr \<lparr>returncode = 0, stdout = '''', stderr = ''''\<rparr>"

text \<open>A linter that prints its JSON on stderr and nothing on stdout.\<close>

definition linter_on_stderr :: subprocess_run where
  "linter_on_stderr argv = Inr \<lparr>returncode = 1, stdout = '''', stderr = ''{}''\<rparr>"

text \<open>A file in the root directory and one file in each of two model folders.\<close>

definition sample_discovered :: "string list list" where
  "sample_discovered =
     [[''contracts-evaluation'', ''top.sol''],
      [''contracts-evaluation'', ''modelA'', ''foo.sol''],
      [''contracts-evaluation'', ''modelB'', ''bar.sol'']]"

text \<open>A file two directories below the root.\<close>

definition nested_path :: "string list" where
  "nested_path = [''contracts-evaluation'', ''modelA'', ''sub'', ''foo.sol'']"

text \<open>A stand-in for \<^verbatim>\<open>json.dumps\<close> that writes the keys of a dictionary only.\<close>

definition sample_dumps :: json_dumps where
  "sample_dumps v indent =
     (case v of VDict kvs \<Rightarrow> ''{'' @ join '','' (map fst kvs) @ ''}'' | _ \<Rightarrow> ''?'')"

text \<open>The aggregate of the sample tools over the sample paths.\<close>

definition sample_aggregate :: "(string \<times> pyval) list" where
  "sample_aggregate =
     [(''modelA/foo'',
       VDict [(''solc'', VDict [(''file'', VStr ''contracts-evaluation/modelA/foo.sol''),
                                (''success'', VBool True),
                                (''solc_output'', VStr ''AST'')]),
              (''slither'', VDict [(''file'', VStr ''contracts-evaluation/modelA/foo.sol''),
                                   (''success'', VBool False),
                                   (''slither_output'', VDict [])])]),
      (''modelB/bar'',
       VDict [(''solc'', VDict [(''file'', VStr ''contracts-evaluation/modelB/bar.sol''),
                                (''success'', VBool False),
                                (''solc_output'', VStr ''Error: Expected pragma'')]),
              (''slither'', VDict [(''file'', VStr ''contracts-evaluation/modelB/bar.sol''),
                                   (''success'', VBool False),
                                   (''error'',
                                    VStr ''Expecting value: line 1 column 1 (char 0)'')])])]"

text \<open>A console that writes every line, and one whose pipe is closed.\<close>

definition console_ok :: console_write where
  "console_ok line = None"

definition console_closed :: console_write where
  "console_closed line = Some (Exc ''[Errno 32] Broken pipe'')"

text \<open>
  The sample tools, but the operating system refuses to start either tool on
  \<^verbatim>\<open>modelA/foo.sol\<close>.
\<close>

definition flaky_run :: subprocess_run where
  "flaky_run argv =
     (if ''contracts-evaluation/modelA/foo.sol'' \<in> set argv
      then Inl (Exc ''[Errno 11] Resource temporarily unavailable'')
      else sample_run argv)"

text \<open>A file in a model folder and a file of the same name one directory deeper.\<close>

definition shadowed_paths :: "string list list" where
  "shadowed_paths =
     [[''contracts-evaluation'', ''modelA'', ''foo.sol''],
      [''contracts-evaluation'', ''modelA'', ''sub'', ''foo.sol'']]"

section \<open>The shape of a check's result\<close>

lemma run_solc_check_completed:
  "run [''solc'', ''--ast-compact-json'', ''--optimize'', f] = Inr r \<Longrightarrow>
   run_solc_check run f =
     Inr (VDict [(''file'', VStr f), (''success'', VBool (returncode r = 0)),
                 (''solc_output'', VStr (if returncode r = 0 then stdout r else stderr r))])"
  by (simp add: run_solc_check_def solc_try_def except_Exception_def)

lemma run_solc_check_raised:
  "run [''solc'', ''--ast-compact-json'', ''--optimize'', f] = Inl (Exc e) \<Longrightarrow>
   run_solc_check run f =
     Inr (VDict [(''file'', VStr f), (''success'', VBool False), (''error'', VStr e)])"
  by (simp add: run_solc_check_def solc_try_def except_Exception_def error_result_def)

lemma run_solc_check_escapes:
  "run [''solc'', ''--ast-compact-json'', ''--optimize'', f] = Inl (BaseExc e) \<Longrightarrow>
   run_solc_check run f = Inl (BaseExc e)"
  by (simp add: run_solc_check_def solc_try_def except_Exception_def)

lemma run_slither_check_raised:
  "run [''slither'', f, ''--json'', ''-''] = Inl (Exc e) \<Longrightarrow>
   run_slither_check run loads f =
     Inr (VDict [(''file'', VStr f), (''success'', VBool False), (''error'', VStr e)])"
  by (simp add: run_slither_check_def slither_try_def except_Exception_def error_result_def)

lemma run_slither_check_escapes:
  "run [''slither'', f, ''--json'', ''-''] = Inl (BaseExc e) \<Longrightarrow>
   run_slither_check run loads f = Inl (BaseExc e)"
  by (simp add: run_slither_check_def slither_try_def except_Exception_def)

lemma run_slither_check_empty:
  "run [''slither'', f, ''--json'', ''-''] = Inr r \<Longrightarrow> stdout r = [] \<Longrightarrow> stderr r = [] \<Longrightarrow>
   run_slither_check run loads f =
     Inr (VDict [(''file'', VStr f), (''success'', VBool (returncode r = 0)),
                 (''slither_output'', VDict [])])"
  by (simp add: run_slither_check_def slither_try_def except_Exception_def)

lemma run_slither_check_parsed:
  "run [''slither'', f, ''--json'', ''-''] = Inr r \<Longrightarrow>
   (if stdout r \<noteq> [] then stdout r else stderr r) = output \<Longrightarrow> output \<noteq> [] \<Longrightarrow>
   loads output = Inr parsed \<Longrightarrow>
   run_slither_check run loads f =
     Inr (VDict [(''file'', VStr f), (''success'', VBool (returncode r = 0)),
                 (''slither_output'', parsed)])"
  by (simp add: run_slither_check_def slither_try_def except_Exception_def Let_def)

lemma run_slither_check_parse_raised:
  "run [''slither'', f, ''--json'', ''-''] = Inr r \<Longrightarrow>
   (if stdout r \<noteq> [] then stdout r else stderr r) = output \<Longrightarrow> output \<noteq> [] \<Longrightarrow>
   loads output = Inl (Exc e) \<Longrightarrow>
   run_slither_check run loads f =
     Inr (VDict [(''file'', VStr f), (''success'', VBool False), (''error'', VStr e)])"
  by (simp add: run_slither_check_def slither_try_def except_Exception_def error_result_def Let_def)

lemma run_slither_check_parse_escapes:
  "run [''slither'', f, ''--json'', ''-''] = Inr r \<Longrightarrow>
   (if stdout r \<noteq> [] then stdout r else stderr r) = output \<Longrightarrow> output \<noteq> [] \<Longrightarrow>
   loads output = Inl (BaseExc e) \<Longrightarrow>
   run_slither_check run loads f = Inl (BaseExc e)"
  by (simp add: run_slither_check_def slither_try_def except_Exception_def Let_def)

text \<open>Every way a check can end, by what the tool and the parser did.\<close>

lemma run_solc_check_cases:
  obtains (completed) r where
      "run [''solc'', ''--ast-compact-json'', ''--optimize'', f] = Inr r"
      "run_solc_check run f =
         Inr (VDict [(''file'', VStr f), (''success'', VBool (returncode r = 0)),
            (''solc_output'', VStr (if returncode r = 0 then stdout r else stderr r))])"
  | (raised) e where
      "run [''solc'', ''--ast-compact-json'', ''--optimize'', f] = Inl (Exc e)"
      "run_solc_check run f =
         Inr (VDict [(''file'', VStr f), (''success'', VBool False), (''error'', VStr e)])"
  | (escapes) e where
      "run [''solc'', ''--ast-compact-json'', ''--optimize'', f] = Inl (BaseExc e)"
      "run_solc_check run f = Inl (BaseExc e)"
proof (cases "run [''solc'', ''--ast-compact-json'', ''--optimize'', f]")
  case (Inr r)
  then show ?thesis using completed run_solc_check_completed by blast
next
  case (Inl x)
  then show ?thesis
    using raised escapes run_solc_check_raised run_solc_check_escapes by (cases x) blast+
qed

lemma run_slither_check_cases:
  obtains (escapes) e where "run_slither_check run loads f = Inl (BaseExc e)"
      "run [''slither'', f, ''--json'', ''-''] = Inl (BaseExc e)
       \<or> (\<exists>r. run [''slither'', f, ''--json'', ''-''] = Inr r
              \<and> (if stdout r \<noteq> [] then stdout r else stderr r) \<noteq> []
              \<and> loads (if stdout r \<noteq> [] then stdout r else stderr r) = Inl (BaseExc e))"
  | (raised) e where
      "run_slither_check run loads f =
         Inr (VDict [(''file'', VStr f), (''success'', VBool False), (''error'', VStr e)])"
      "run [''slither'', f, ''--json'', ''-''] = Inl (Exc e)
       \<or> (\<exists>r. run [''slither'', f, ''--json'', ''-''] = Inr r
              \<and> (if stdout r \<noteq> [] then stdout r else stderr r) \<noteq> []
              \<and> loads (if stdout r \<noteq> [] then stdout r else stderr r) = Inl (Exc e))"
  | (returned) r parsed where
      "run [''slither'', f, ''--json'', ''-''] = Inr r"
      "run_slither_check run loads f =
         Inr (VDict [(''file'', VStr f), (''success'', VBool (returncode r = 0)),
                     (''slither_output'', parsed)])"
proof (cases "run [''slither'', f, ''--json'', ''-'']")
  case (Inl x)
  then show ?thesis
    using raised escapes run_slither_check_raised run_slither_check_escapes by (cases x) blast+
next
  case (Inr r)
  define out where "out = (if stdout r \<noteq> [] then stdout r else stderr r)"
  show ?thesis
  proof (cases "out = []")
    case True
    then have "stdout r = []" "stderr r = []" by (auto simp: out_def split: if_splits)
    from run_slither_check_empty [where run = run and r = r, OF Inr this] show ?thesis using returned Inr by blast
  next
    case False
    show ?thesis
    proof (cases "loads out")
      case parsed: (Inr p)
      from run_slither_check_parsed [where run = run and r = r and loads = loads, OF Inr out_def [symmetric] False parsed]
      show ?thesis using returned Inr by blast
    next
      case failed: (Inl x)
      show ?thesis
      proof (cases x)
        case (Exc e)
        from run_slither_check_parse_raised [where run = run and r = r and loads = loads, OF Inr out_def [symmetric] False]
          failed Exc False raised [of e] Inr
        show ?thesis unfolding out_def by blast
      next
        case (BaseExc e)
        from run_slither_check_parse_escapes [where run = run and r = r and loads = loads, OF Inr out_def [symmetric] False]
          failed BaseExc False escapes [of e] Inr
        show ?thesis unfolding out_def by blast
      qed
    qed
  qed
qed

lemma run_solc_check_returns:
  "catchable (run [''solc'', ''--ast-compact-json'', ''--optimize'', f])
     \<Longrightarrow> \<exists>v. run_solc_check run f = Inr v"
  by (cases rule: run_solc_check_cases [of run f]) auto

lemma run_slither_check_returns:
  assumes "catchable (run [''slither'', f, ''--json'', ''-''])" and "\<forall>s. catchable (loads s)"
  shows "\<exists>v. run_slither_check run loads f = Inr v"
proof (cases rule: run_slither_check_cases [of run loads f])
  case (escapes e)
  from escapes(2) show ?thesis
  proof
    assume "run [''slither'', f, ''--json'', ''-''] = Inl (BaseExc e)"
    with assms(1) show ?thesis by simp
  next
    assume "\<exists>r. run [''slither'', f, ''--json'', ''-''] = Inr r
              \<and> (if stdout r \<noteq> [] then stdout r else stderr r) \<noteq> []
              \<and> loads (if stdout r \<noteq> [] then stdout r else stderr r) = Inl (BaseExc e)"
    then obtain s where "loads s = Inl (BaseExc e)" by blast
    moreover have "catchable (loads s)" using assms(2) by blast
    ultimately show ?thesis by simp
  qed
qed auto

section \<open>The loop, one path at a time\<close>

lemma print_written:
  "print emit line w = Inr w1 \<longleftrightarrow> emit line = None \<and> w1 = w\<lparr>console := console w @ [line]\<rparr>"
  by (cases "emit line") (auto simp: print_def)

lemma print_raises:
  "print emit line w = Inl e \<longleftrightarrow> emit line = Some e"
  by (cases "emit line") (auto simp: print_def)

lemma loop_step_shallow:
  "length p < 3 \<Longrightarrow>
   analyze_loop run loads emit (p # ps) (c, w) = analyze_loop run loads emit ps (c, w)"
  by simp

lemma loop_step_deep:
  "\<not> length p < 3 \<Longrightarrow>
   analyze_loop run loads emit (p # ps) (c, w) =
     (case print emit (progress_line p) w of
        Inl e \<Rightarrow> Inl e
      | Inr w1 \<Rightarrow>
          (case run_solc_check run (str_path p) of
             Inl e \<Rightarrow> Inl e
           | Inr solc \<Rightarrow>
               (case run_slither_check run loads (str_path p) of
                  Inl e \<Rightarrow> Inl e
                | Inr slither \<Rightarrow>
                    analyze_loop run loads emit ps
                      (AList.update (key_of p)
                         (VDict [(''solc'', solc), (''slither'', slither)]) c,
                       w1))))"
  by (cases "print emit (progress_line p) w"; cases "run_solc_check run (str_path p)";
      cases "run_slither_check run loads (str_path p)")
     (simp_all add: key_of_def progress_line_def Let_def)

lemma loop_step_deepE:
  assumes "analyze_loop run loads emit (p # ps) (c, w) = Inr (c', w')" and "\<not> length p < 3"
  obtains w1 a b where "print emit (progress_line p) w = Inr w1"
    and "run_solc_check run (str_path p) = Inr a"
    and "run_slither_check run loads (str_path p) = Inr b"
    and "analyze_loop run loads emit ps
           (AList.update (key_of p) (VDict [(''solc'', a), (''slither'', b)]) c, w1)
         = Inr (c', w')"
  using assms(1) unfolding loop_step_deep [OF assms(2)]
  by (cases "print emit (progress_line p) w"; cases "run_solc_check run (str_path p)";
      cases "run_slither_check run loads (str_path p)")
     simp_all

declare analyze_loop.simps(2) [simp del]

lemma loop_step_printed:
  assumes "\<not> length p < 3" and "print emit (progress_line p) w = Inr w1"
    and "run_solc_check run (str_path p) = Inr a"
    and "run_slither_check run loads (str_path p) = Inr b"
  shows "analyze_loop run loads emit (p # ps) (c, w) =
           analyze_loop run loads emit ps
             (AList.update (key_of p) (VDict [(''solc'', a), (''slither'', b)]) c, w1)"
  using assms(2-4) by (simp add: loop_step_deep [OF assms(1)])


lemma loop_filter:
  "analyze_loop run loads emit (filter (\<lambda>p. \<not> length p < 3) ps) (c, w)
     = analyze_loop run loads emit ps (c, w)"
proof (induction ps arbitrary: c w)
  case Nil
  show ?case by simp
next
  case (Cons p ps)
  show ?case
  proof (cases "length p < 3")
    case True
    then show ?thesis using Cons.IH by (simp add: loop_step_shallow)
  next
    case False
    then show ?thesis
      by (cases "print emit (progress_line p) w"; cases "run_solc_check run (str_path p)";
          cases "run_slither_check run loads (str_path p)")
         (simp_all add: loop_step_deep Cons.IH)
  qed
qed

lemma loop_keys:
  "analyze_loop run loads emit ps (c, w) = Inr (c', w')
     \<Longrightarrow> fst ` set c' = fst ` set c \<union> key_of ` {p \<in> set ps. \<not> length p < 3}"
proof (induction ps arbitrary: c w)
  case Nil
  then show ?case by simp
next
  case (Cons p ps)
  show ?case
  proof (cases "length p < 3")
    case True
    then have "analyze_loop run loads emit ps (c, w) = Inr (c', w')"
      using Cons.prems by (simp add: loop_step_shallow)
    from Cons.IH [OF this] True show ?thesis by auto
  next
    case False
    from Cons.prems(1) False obtain w1 a b where
      rest: "analyze_loop run loads emit ps
               (AList.update (key_of p) (VDict [(''solc'', a), (''slither'', b)]) c, w1)
             = Inr (c', w')"
      by (rule loop_step_deepE)
    from Cons.IH [OF rest] False show ?thesis by (auto simp: dom_update)
  qed
qed

lemma loop_distinct:
  "analyze_loop run loads emit ps (c, w) = Inr (c', w') \<Longrightarrow> distinct (map fst c)
     \<Longrightarrow> distinct (map fst c')"
proof (induction ps arbitrary: c w)
  case Nil
  then show ?case by simp
next
  case (Cons p ps)
  show ?case
  proof (cases "length p < 3")
    case True
    then show ?thesis using Cons by (simp add: loop_step_shallow)
  next
    case False
    from Cons.prems(1) False obtain w1 a b where
      rest: "analyze_loop run loads emit ps
               (AList.update (key_of p) (VDict [(''solc'', a), (''slither'', b)]) c, w1)
             = Inr (c', w')"
      by (rule loop_step_deepE)
    from Cons.IH [OF rest] Cons.prems(2) show ?thesis by (simp add: distinct_update)
  qed
qed

lemma set_update_subset: "set (AList.update k v al) \<subseteq> insert (k, v) (set al)"
  by (induction al) auto

lemma loop_entries:
  "analyze_loop run loads emit ps (c, w) = Inr (c', w') \<Longrightarrow> kv \<in> set c'
     \<Longrightarrow> kv \<in> set c \<or>
         (\<exists>p solc slither. p \<in> set ps \<and> \<not> length p < 3
            \<and> run_solc_check run (str_path p) = Inr solc
            \<and> run_slither_check run loads (str_path p) = Inr slither
            \<and> kv = (key_of p, VDict [(''solc'', solc), (''slither'', slither)]))"
proof (induction ps arbitrary: c w)
  case Nil
  then show ?case by simp
next
  case (Cons p ps)
  show ?case
  proof (cases "length p < 3")
    case True
    then have "analyze_loop run loads emit ps (c, w) = Inr (c', w')"
      using Cons.prems by (simp add: loop_step_shallow)
    from Cons.IH [OF this Cons.prems(2)] show ?thesis by auto
  next
    case False
    from Cons.prems(1) False obtain w1 a b where
      a: "run_solc_check run (str_path p) = Inr a" and
      b: "run_slither_check run loads (str_path p) = Inr b" and
      rest: "analyze_loop run loads emit ps
               (AList.update (key_of p) (VDict [(''solc'', a), (''slither'', b)]) c, w1)
             = Inr (c', w')"
      by (rule loop_step_deepE)
    from Cons.IH [OF rest Cons.prems(2)]
    consider "kv \<in> set (AList.update (key_of p) (VDict [(''solc'', a), (''slither'', b)]) c)"
      | "\<exists>q solc slither. q \<in> set ps \<and> \<not> length q < 3
            \<and> run_solc_check run (str_path q) = Inr solc
            \<and> run_slither_check run loads (str_path q) = Inr slither
            \<and> kv = (key_of q, VDict [(''solc'', solc), (''slither'', slither)])" by blast
    then show ?thesis
    proof cases
      case 1
      then have "kv = (key_of p, VDict [(''solc'', a), (''slither'', b)]) \<or> kv \<in> set c"
        using set_update_subset by fastforce
      then show ?thesis using a b False by auto
    next
      case 2
      then show ?thesis by auto
    qed
  qed
qed

text \<open>The dictionary at the end of the loop does not depend on the world at its start.\<close>

lemma loop_world:
  "analyze_loop run loads emit ps (c, w) = Inr (c', w1)
     \<Longrightarrow> \<exists>w2. analyze_loop run loads emit ps (c, w') = Inr (c', w2)"
proof (induction ps arbitrary: c w w')
  case Nil
  then show ?case by simp
next
  case (Cons p ps)
  show ?case
  proof (cases "length p < 3")
    case True
    then show ?thesis using Cons by (simp add: loop_step_shallow)
  next
    case False
    from Cons.prems(1) False obtain wp a b where
      pr: "print emit (progress_line p) w = Inr wp" and
      a: "run_solc_check run (str_path p) = Inr a" and
      b: "run_slither_check run loads (str_path p) = Inr b" and
      rest: "analyze_loop run loads emit ps
               (AList.update (key_of p) (VDict [(''solc'', a), (''slither'', b)]) c, wp)
             = Inr (c', w1)"
      by (rule loop_step_deepE)
    from pr have "print emit (progress_line p) w'
                    = Inr (w'\<lparr>console := console w' @ [progress_line p]\<rparr>)"
      by (simp add: print_written)
    from loop_step_printed [OF False this a b] Cons.IH [OF rest] show ?thesis by simp
  qed
qed

section \<open>The aggregate\<close>

lemma aggregate_loop:
  "analyze_loop run loads emit ps ([], w) = Inr (c', w') \<Longrightarrow> aggregate run loads emit ps = Inr c'"
  using loop_world [of run loads emit ps "[]" w c' w' "\<lparr>console = [], files = Map.empty\<rparr>"]
  by (auto simp: aggregate_def)

lemma aggregate_loopD:
  "aggregate run loads emit ps = Inr agg \<Longrightarrow>
     \<exists>w'. analyze_loop run loads emit ps ([], \<lparr>console = [], files = Map.empty\<rparr>) = Inr (agg, w')"
  by (auto simp: aggregate_def split: sum.splits)

lemma aggregate_keys:
  assumes "aggregate run loads emit ps = Inr agg"
  shows "fst ` set agg = key_of ` {p \<in> set ps. \<not> length p < 3}"
proof -
  from aggregate_loopD [OF assms] obtain w' where
    "analyze_loop run loads emit ps ([], \<lparr>console = [], files = Map.empty\<rparr>) = Inr (agg, w')" ..
  from loop_keys [OF this] show ?thesis by simp
qed

lemma aggregate_distinct:
  assumes "aggregate run loads emit ps = Inr agg"
  shows "distinct (map fst agg)"
proof -
  from aggregate_loopD [OF assms] obtain w' where
    "analyze_loop run loads emit ps ([], \<lparr>console = [], files = Map.empty\<rparr>) = Inr (agg, w')" ..
  from loop_distinct [OF this] show ?thesis by simp
qed

lemma aggregate_entry:
  assumes "aggregate run loads emit ps = Inr agg" and "kv \<in> set agg"
  shows "\<exists>p solc slither. p \<in> set ps \<and> \<not> length p < 3
            \<and> run_solc_check run (str_path p) = Inr solc
            \<and> run_slither_check run loads (str_path p) = Inr slither
            \<and> kv = (key_of p, VDict [(''solc'', solc), (''slither'', slither)])"
proof -
  from aggregate_loopD [OF assms(1)] obtain w' where
    "analyze_loop run loads emit ps ([], \<lparr>console = [], files = Map.empty\<rparr>) = Inr (agg, w')" ..
  from loop_entries [OF this assms(2)] show ?thesis by simp
qed

lemma aggregate_filter:
  "aggregate run loads emit (filter (\<lambda>p. \<not> length p < 3) ps) = aggregate run loads emit ps"
  by (simp add: aggregate_def loop_filter)

lemma loop_returns_printed:
  assumes "\<forall>argv. catchable (run argv)" and "\<forall>s. catchable (loads s)"
  shows "\<forall>p\<in>set ps. \<not> length p < 3 \<longrightarrow> emit (progress_line p) = None
     \<Longrightarrow> \<exists>c' w'. analyze_loop run loads emit ps (c, w) = Inr (c', w')"
proof (induction ps arbitrary: c w)
  case Nil
  show ?case by simp
next
  case (Cons p ps)
  have rest: "\<forall>p\<in>set ps. \<not> length p < 3 \<longrightarrow> emit (progress_line p) = None"
    using Cons.prems by simp
  show ?case
  proof (cases "length p < 3")
    case True
    then show ?thesis using Cons.IH [OF rest] by (simp add: loop_step_shallow)
  next
    case False
    obtain a where a: "run_solc_check run (str_path p) = Inr a"
      using run_solc_check_returns assms(1) by blast
    obtain b where b: "run_slither_check run loads (str_path p) = Inr b"
      using run_slither_check_returns assms(1,2) by blast
    have "emit (progress_line p) = None" using Cons.prems False by simp
    then have "print emit (progress_line p) w
            = Inr (w\<lparr>console := console w @ [progress_line p]\<rparr>)"
      by (simp add: print_written)
    from loop_step_printed [OF False this a b] Cons.IH [OF rest] show ?thesis by simp
  qed
qed

lemma aggregate_returns:
  assumes "\<forall>argv. catchable (run argv)" and "\<forall>s. catchable (loads s)"
    and "\<forall>p\<in>set ps. \<not> length p < 3 \<longrightarrow> emit (progress_line p) = None"
  shows "\<exists>agg. aggregate run loads emit ps = Inr agg"
proof -
  from loop_returns_printed [OF assms] obtain c' w' where
    "analyze_loop run loads emit ps ([], \<lparr>console = [], files = Map.empty\<rparr>) = Inr (c', w')"
    by blast
  then show ?thesis by (simp add: aggregate_def)
qed

section \<open>Paths and keys\<close>

lemma stem_sol:
  assumes "last p = b @ ''.sol''" and "p \<noteq> []" and "b \<noteq> []"
  shows "stem p = b"
  using assms by (simp add: stem_def name_def rfind_def Let_def)

lemma parent_name_3: "length p = 3 \<Longrightarrow> parent_name p = p ! 1"
proof -
  assume "length p = 3"
  then obtain a b c where "p = [a, b, c]"
    by (cases p; cases "tl p"; cases "tl (tl p)") auto
  then show ?thesis by (simp add: parent_name_def name_def)
qed

lemma stem_hidden:
  assumes "last p = ''.sol''" and "p \<noteq> []"
  shows "stem p = ''.sol''"
  using assms by (simp add: stem_def name_def rfind_def Let_def)

lemma parent_name_nth: "\<not> length p < 3 \<Longrightarrow> parent_name p = p ! (length p - 2)"
proof -
  assume "\<not> length p < 3"
  then have "butlast p \<noteq> []" by (cases p; cases "tl p") auto
  then have "parent_name p = butlast p ! (length (butlast p) - 1)"
    by (simp add: parent_name_def name_def last_conv_nth)
  also have "\<dots> = p ! (length p - 2)"
  proof -
    have "length (butlast p) - 1 = length p - 2" by simp
    moreover have "length p - 2 < length (butlast p)"
      using \<open>\<not> length p < 3\<close> by simp
    ultimately show ?thesis by (simp only: nth_butlast)
  qed
  finally show ?thesis .
qed

text \<open>The equations that evaluate a run on concrete paths and tools.\<close>

lemmas run_eval = analyze_loop.simps run_solc_check_def run_slither_check_def solc_try_def
  slither_try_def except_Exception_def error_result_def str_path_def stem_def name_def rfind_def
  print_def Let_def aggregate_def key_of_def parent_name_def analyze_all_contracts_def
  progress_line_def REPORT_FILE_def

section \<open>Which results an entry holds\<close>

lemma loop_append:
  "analyze_loop run loads emit (ps @ qs) (c, w) =
     (case analyze_loop run loads emit ps (c, w) of
        Inl e \<Rightarrow> Inl e
      | Inr s \<Rightarrow> analyze_loop run loads emit qs s)"
proof (induction ps arbitrary: c w)
  case Nil
  show ?case by simp
next
  case (Cons p ps)
  show ?case
  proof (cases "length p < 3")
    case True
    then show ?thesis using Cons.IH by (simp add: loop_step_shallow)
  next
    case False
    then show ?thesis
      by (cases "print emit (progress_line p) w"; cases "run_solc_check run (str_path p)";
          cases "run_slither_check run loads (str_path p)")
         (simp_all add: loop_step_deep Cons.IH)
  qed
qed

lemma loop_other_keys:
  "analyze_loop run loads emit qs (c, w) = Inr (c', w')
     \<Longrightarrow> \<forall>q\<in>set qs. \<not> length q < 3 \<longrightarrow> key_of q \<noteq> k
     \<Longrightarrow> map_of c' k = map_of c k"
proof (induction qs arbitrary: c w)
  case Nil
  then show ?case by simp
next
  case (Cons q qs)
  show ?case
  proof (cases "length q < 3")
    case True
    then show ?thesis using Cons by (simp add: loop_step_shallow)
  next
    case False
    from Cons.prems(1) False obtain wq a b where
      rest: "analyze_loop run loads emit qs
               (AList.update (key_of q) (VDict [(''solc'', a), (''slither'', b)]) c, wq)
             = Inr (c', w')"
      by (rule loop_step_deepE)
    have "key_of q \<noteq> k" using Cons.prems(2) False by simp
    moreover have "\<forall>q\<in>set qs. \<not> length q < 3 \<longrightarrow> key_of q \<noteq> k"
      using Cons.prems(2) by simp
    ultimately show ?thesis using Cons.IH [OF rest] by (simp add: update_conv')
  qed
qed

text \<open>The entry of a key holds the results of the last path with that key.\<close>

lemma aggregate_last_writer:
  assumes "aggregate run loads emit (ps @ p # qs) = Inr agg"
    and "\<not> length p < 3"
    and "\<forall>q\<in>set qs. \<not> length q < 3 \<longrightarrow> key_of q \<noteq> key_of p"
  shows "\<exists>solc slither. run_solc_check run (str_path p) = Inr solc
           \<and> run_slither_check run loads (str_path p) = Inr slither
           \<and> map_of agg (key_of p) = Some (VDict [(''solc'', solc), (''slither'', slither)])"
proof -
  from aggregate_loopD [OF assms(1)] obtain w' where
    l: "analyze_loop run loads emit (ps @ p # qs) ([], \<lparr>console = [], files = Map.empty\<rparr>)
          = Inr (agg, w')" ..
  then obtain c1 w1 where
    "analyze_loop run loads emit (p # qs) (c1, w1) = Inr (agg, w')"
    by (cases "analyze_loop run loads emit ps ([], \<lparr>console = [], files = Map.empty\<rparr>)")
       (auto simp: loop_append)
  from this assms(2) obtain wp a b where
    a: "run_solc_check run (str_path p) = Inr a" and
    b: "run_slither_check run loads (str_path p) = Inr b" and
    rest: "analyze_loop run loads emit qs
             (AList.update (key_of p) (VDict [(''solc'', a), (''slither'', b)]) c1, wp)
           = Inr (agg, w')"
    by (rule loop_step_deepE)
  from loop_other_keys [OF rest assms(3)]
  have "map_of agg (key_of p) = Some (VDict [(''solc'', a), (''slither'', b)])"
    by (simp add: update_conv')
  with a b show ?thesis by blast
qed

section \<open>The compiler check\<close>

text \<open>
  Claim C2. When the compiler invocation launches (\<^verbatim>\<open>subprocess.run\<close> returns a
  completed process), the result of \<open>run_solc_check\<close> has \<open>success\<close> true exactly when the
  exit code is zero, and \<open>solc_output\<close> is the captured stdout when the exit code is zero
  and the captured stderr when it is not.
\<close>

theorem solc_check_launched:
  assumes "run [''solc'', ''--ast-compact-json'', ''--optimize'', f] = Inr r"
  shows "\<exists>kvs. run_solc_check run f = Inr (VDict kvs)
           \<and> map_of kvs ''success'' = Some (VBool (returncode r = 0))
           \<and> map_of kvs ''solc_output''
                = Some (VStr (if returncode r = 0 then stdout r else stderr r))"
  using run_solc_check_completed [where run = run, OF assms] by simp

theorem solc_check_launched_witness:
  "(\<exists>kvs. run_solc_check sample_run ''contracts-evaluation/modelA/foo.sol'' = Inr (VDict kvs)
      \<and> map_of kvs ''success'' = Some (VBool True)
      \<and> map_of kvs ''solc_output'' = Some (VStr ''AST''))
   \<and> (\<exists>kvs. run_solc_check sample_run ''contracts-evaluation/modelB/bar.sol'' = Inr (VDict kvs)
      \<and> map_of kvs ''success'' = Some (VBool False)
      \<and> map_of kvs ''solc_output'' = Some (VStr ''Error: Expected pragma''))"
  using solc_check_launched [of sample_run "''contracts-evaluation/modelA/foo.sol''"
          "\<lparr>returncode = 0, stdout = ''AST'', stderr = ''''\<rparr>"]
        solc_check_launched [of sample_run "''contracts-evaluation/modelB/bar.sol''"
          "\<lparr>returncode = 1, stdout = '''', stderr = ''Error: Expected pragma''\<rparr>"]
  by (simp add: sample_run_def)

section \<open>The linter check\<close>

text \<open>
  Claim C3. When the linter invocation launches and the selected stream (stdout when it
  is not empty, stderr otherwise) is a non-empty text that \<^verbatim>\<open>json.loads\<close> parses, the
  result of \<open>run_slither_check\<close> has \<open>success\<close> equal to (exit code = 0) and
  \<open>slither_output\<close> equal to the parsed value.
\<close>

theorem slither_check_parsed:
  assumes "run [''slither'', f, ''--json'', ''-''] = Inr r"
    and "output = (if stdout r \<noteq> [] then stdout r else stderr r)"
    and "output \<noteq> []"
    and "loads output = Inr parsed"
  shows "\<exists>kvs. run_slither_check run loads f = Inr (VDict kvs)
           \<and> map_of kvs ''success'' = Some (VBool (returncode r = 0))
           \<and> map_of kvs ''slither_output'' = Some parsed"
  using run_slither_check_parsed [where run = run and loads = loads, OF assms(1) assms(2) [symmetric]
      assms(3) assms(4)]
  by simp

theorem slither_check_parsed_witness:
  "(\<exists>kvs. run_slither_check sample_run sample_loads ''contracts-evaluation/modelA/foo.sol''
            = Inr (VDict kvs)
      \<and> map_of kvs ''success'' = Some (VBool False)
      \<and> map_of kvs ''slither_output'' = Some (VDict []))
   \<and> (\<exists>kvs. run_slither_check linter_on_stderr sample_loads
              ''contracts-evaluation/modelA/foo.sol'' = Inr (VDict kvs)
      \<and> map_of kvs ''success'' = Some (VBool False)
      \<and> map_of kvs ''slither_output'' = Some (VDict []))"
  using slither_check_parsed [of sample_run "''contracts-evaluation/modelA/foo.sol''"
          "\<lparr>returncode = 255, stdout = ''{}'', stderr = ''''\<rparr>" "''{}''" sample_loads "VDict []"]
        slither_check_parsed [of linter_on_stderr "''contracts-evaluation/modelA/foo.sol''"
          "\<lparr>returncode = 1, stdout = '''', stderr = ''{}''\<rparr>" "''{}''" sample_loads "VDict []"]
  by (simp add: sample_run_def linter_on_stderr_def sample_loads_def)

text \<open>
  Claim C8. When the linter invocation launches and both stdout and stderr are empty,
  the result has \<open>slither_output\<close> equal to the empty dictionary and no \<open>error\<close> field,
  whatever \<^verbatim>\<open>json.loads\<close> would do (it is not called), and \<open>success\<close> is still
  (exit code = 0).
\<close>

theorem slither_check_no_output:
  assumes "run [''slither'', f, ''--json'', ''-''] = Inr r"
    and "stdout r = []" and "stderr r = []"
  shows "run_slither_check run loads f =
           Inr (VDict [(''file'', VStr f), (''success'', VBool (returncode r = 0)),
                       (''slither_output'', VDict [])])"
  using assms by (rule run_slither_check_empty)

theorem slither_check_no_output_witness:
  "sample_loads [] = Inl (Exc ''Expecting value: line 1 column 1 (char 0)'')
   \<and> run_slither_check tools_silent sample_loads ''contracts-evaluation/modelA/foo.sol'' =
       Inr (VDict [(''file'', VStr ''contracts-evaluation/modelA/foo.sol''),
                   (''success'', VBool True), (''slither_output'', VDict [])])"
  using slither_check_no_output [of tools_silent "''contracts-evaluation/modelA/foo.sol''"
          "\<lparr>returncode = 0, stdout = '''', stderr = ''''\<rparr>" sample_loads]
  by (simp add: tools_silent_def sample_loads_def)

section \<open>Fields of every result\<close>

text \<open>
  Claim C9. Every result that either check returns, on every branch (the tool ran, the
  tool could not be launched, the output did not parse), is a dictionary with a
  \<open>file\<close> field equal to the path string the check was called with and a boolean
  \<open>success\<close> field.
\<close>

theorem tool_result_file_and_success:
  "(run_solc_check run f = Inr v \<longrightarrow>
      (\<exists>kvs b. v = VDict kvs \<and> map_of kvs ''file'' = Some (VStr f)
         \<and> map_of kvs ''success'' = Some (VBool b)))
   \<and> (run_slither_check run loads f = Inr v' \<longrightarrow>
      (\<exists>kvs b. v' = VDict kvs \<and> map_of kvs ''file'' = Some (VStr f)
         \<and> map_of kvs ''success'' = Some (VBool b)))"
proof (intro conjI impI)
  assume v: "run_solc_check run f = Inr v"
  show "\<exists>kvs b. v = VDict kvs \<and> map_of kvs ''file'' = Some (VStr f)
         \<and> map_of kvs ''success'' = Some (VBool b)"
  proof (cases rule: run_solc_check_cases [of run f])
    case (completed r)
    with v have "v = VDict [(''file'', VStr f), (''success'', VBool (returncode r = 0)),
            (''solc_output'', VStr (if returncode r = 0 then stdout r else stderr r))]"
      by simp
    then show ?thesis by auto
  next
    case (raised e)
    with v have "v = VDict [(''file'', VStr f), (''success'', VBool False), (''error'', VStr e)]"
      by simp
    then show ?thesis by auto
  next
    case (escapes e)
    with v show ?thesis by simp
  qed
next
  assume v': "run_slither_check run loads f = Inr v'"
  show "\<exists>kvs b. v' = VDict kvs \<and> map_of kvs ''file'' = Some (VStr f)
         \<and> map_of kvs ''success'' = Some (VBool b)"
  proof (cases rule: run_slither_check_cases [of run loads f])
    case (escapes e)
    with v' show ?thesis by simp
  next
    case (raised e)
    with v' have "v' = VDict [(''file'', VStr f), (''success'', VBool False), (''error'', VStr e)]"
      by simp
    then show ?thesis by auto
  next
    case (returned r parsed)
    with v' have "v' = VDict [(''file'', VStr f), (''success'', VBool (returncode r = 0)),
                     (''slither_output'', parsed)]"
      by simp
    then show ?thesis by auto
  qed
qed

theorem tool_result_file_and_success_witness:
  "(\<exists>kvs b. run_solc_check tools_missing ''contracts-evaluation/modelA/foo.sol'' = Inr (VDict kvs)
      \<and> map_of kvs ''file'' = Some (VStr ''contracts-evaluation/modelA/foo.sol'')
      \<and> map_of kvs ''success'' = Some (VBool b))
   \<and> (\<exists>kvs b. run_slither_check sample_run sample_loads ''contracts-evaluation/modelB/bar.sol''
          = Inr (VDict kvs)
      \<and> map_of kvs ''file'' = Some (VStr ''contracts-evaluation/modelB/bar.sol'')
      \<and> map_of kvs ''success'' = Some (VBool b))"
  using tool_result_file_and_success [where run = tools_missing
          and f = "''contracts-evaluation/modelA/foo.sol''"
          and v = "VDict [(''file'', VStr ''contracts-evaluation/modelA/foo.sol''),
                  (''success'', VBool False),
                  (''error'', VStr ''[Errno 2] No such file or directory'')]"]
        tool_result_file_and_success [where run = sample_run and loads = sample_loads
          and f = "''contracts-evaluation/modelB/bar.sol''"
          and v' = "VDict [(''file'', VStr ''contracts-evaluation/modelB/bar.sol''),
                  (''success'', VBool False),
                  (''error'', VStr ''Expecting value: line 1 column 1 (char 0)'')]"]
  by (simp add: run_eval tools_missing_def sample_run_def sample_loads_def)

section \<open>Failures of a check\<close>

text \<open>
  Claim C10. When a check takes its \<^verbatim>\<open>except\<close> branch (the tool could not be
  launched, or for the linter the selected non-empty output did not parse), the result
  has \<open>success\<close> false whatever the exit code was, carries an \<open>error\<close> field with the
  exception's text, and has no output field (\<open>solc_output\<close>, \<open>slither_output\<close>).
\<close>

theorem exception_branch_result:
  "(run [''solc'', ''--ast-compact-json'', ''--optimize'', f] = Inl (Exc e) \<longrightarrow>
      (\<exists>kvs. run_solc_check run f = Inr (VDict kvs)
         \<and> map_of kvs ''success'' = Some (VBool False)
         \<and> map_of kvs ''error'' = Some (VStr e)
         \<and> map_of kvs ''solc_output'' = None))
   \<and> (run [''slither'', f, ''--json'', ''-''] = Inl (Exc e)
        \<or> (\<exists>r. run [''slither'', f, ''--json'', ''-''] = Inr r
              \<and> (if stdout r \<noteq> [] then stdout r else stderr r) \<noteq> []
              \<and> loads (if stdout r \<noteq> [] then stdout r else stderr r) = Inl (Exc e)) \<longrightarrow>
      (\<exists>kvs. run_slither_check run loads f = Inr (VDict kvs)
         \<and> map_of kvs ''success'' = Some (VBool False)
         \<and> map_of kvs ''error'' = Some (VStr e)
         \<and> map_of kvs ''slither_output'' = None))"
proof (intro conjI impI)
  assume "run [''solc'', ''--ast-compact-json'', ''--optimize'', f] = Inl (Exc e)"
  from run_solc_check_raised [where run = run, OF this]
  show "\<exists>kvs. run_solc_check run f = Inr (VDict kvs)
         \<and> map_of kvs ''success'' = Some (VBool False)
         \<and> map_of kvs ''error'' = Some (VStr e)
         \<and> map_of kvs ''solc_output'' = None"
    by simp
next
  assume "run [''slither'', f, ''--json'', ''-''] = Inl (Exc e)
        \<or> (\<exists>r. run [''slither'', f, ''--json'', ''-''] = Inr r
              \<and> (if stdout r \<noteq> [] then stdout r else stderr r) \<noteq> []
              \<and> loads (if stdout r \<noteq> [] then stdout r else stderr r) = Inl (Exc e))"
  then have "run_slither_check run loads f =
         Inr (VDict [(''file'', VStr f), (''success'', VBool False), (''error'', VStr e)])"
  proof
    assume "run [''slither'', f, ''--json'', ''-''] = Inl (Exc e)"
    then show ?thesis by (rule run_slither_check_raised)
  next
    assume "\<exists>r. run [''slither'', f, ''--json'', ''-''] = Inr r
              \<and> (if stdout r \<noteq> [] then stdout r else stderr r) \<noteq> []
              \<and> loads (if stdout r \<noteq> [] then stdout r else stderr r) = Inl (Exc e)"
    then obtain r where r: "run [''slither'', f, ''--json'', ''-''] = Inr r"
      and ne: "(if stdout r \<noteq> [] then stdout r else stderr r) \<noteq> []"
      and l: "loads (if stdout r \<noteq> [] then stdout r else stderr r) = Inl (Exc e)"
      by blast
    from run_slither_check_parse_raised [where run = run and loads = loads, OF r refl ne l]
    show ?thesis .
  qed
  then show "\<exists>kvs. run_slither_check run loads f = Inr (VDict kvs)
         \<and> map_of kvs ''success'' = Some (VBool False)
         \<and> map_of kvs ''error'' = Some (VStr e)
         \<and> map_of kvs ''slither_output'' = None"
    by simp
qed

theorem exception_branch_result_witness:
  "(\<exists>kvs. run_solc_check tools_missing ''contracts-evaluation/modelB/bar.sol'' = Inr (VDict kvs)
      \<and> map_of kvs ''success'' = Some (VBool False)
      \<and> map_of kvs ''error'' = Some (VStr ''[Errno 2] No such file or directory'')
      \<and> map_of kvs ''solc_output'' = None)
   \<and> sample_run [''slither'', ''contracts-evaluation/modelB/bar.sol'', ''--json'', ''-'']
       = Inr \<lparr>returncode = 0, stdout = '''', stderr = ''Traceback''\<rparr>
   \<and> (\<exists>kvs. run_slither_check sample_run sample_loads ''contracts-evaluation/modelB/bar.sol''
              = Inr (VDict kvs)
      \<and> map_of kvs ''success'' = Some (VBool False)
      \<and> map_of kvs ''error'' = Some (VStr ''Expecting value: line 1 column 1 (char 0)'')
      \<and> map_of kvs ''slither_output'' = None)"
  using exception_branch_result [where run = tools_missing
          and f = "''contracts-evaluation/modelB/bar.sol''"
          and e = "''[Errno 2] No such file or directory''"]
        exception_branch_result [where run = sample_run and loads = sample_loads
          and f = "''contracts-evaluation/modelB/bar.sol''"
          and e = "''Expecting value: line 1 column 1 (char 0)''"]
  by (simp add: run_eval tools_missing_def sample_run_def sample_loads_def)

text \<open>
  Claim C4. When the linter's selected non-empty output is not valid JSON
  (\<^verbatim>\<open>json.loads\<close> raises), \<open>run_slither_check\<close> returns a result whose \<open>error\<close> field
  holds the parser's message instead of raising, and the loop (which printed the
  progress line and ran the compiler check before the linter) stores that result
  under the file's key and goes on with the paths that are left.
\<close>

theorem slither_check_not_json:
  assumes "run [''slither'', f, ''--json'', ''-''] = Inr r"
    and "output = (if stdout r \<noteq> [] then stdout r else stderr r)"
    and "output \<noteq> []"
    and "loads output = Inl (Exc e)"
  shows "run_slither_check run loads f =
           Inr (VDict [(''file'', VStr f), (''success'', VBool False), (''error'', VStr e)])
       \<and> (\<forall>p rest c w w1 solc.
             str_path p = f \<and> \<not> length p < 3 \<and> print emit (progress_line p) w = Inr w1
               \<and> run_solc_check run f = Inr solc \<longrightarrow>
             analyze_loop run loads emit (p # rest) (c, w) =
               analyze_loop run loads emit rest
                 (AList.update (key_of p)
                    (VDict [(''solc'', solc),
                            (''slither'', VDict [(''file'', VStr f), (''success'', VBool False),
                                                 (''error'', VStr e)])]) c,
                  w1))"
proof -
  have res: "run_slither_check run loads f =
           Inr (VDict [(''file'', VStr f), (''success'', VBool False), (''error'', VStr e)])"
    using run_slither_check_parse_raised [where run = run and loads = loads,
        OF assms(1) assms(2) [symmetric] assms(3) assms(4)] .
  have "analyze_loop run loads emit (p # rest) (c, w) =
               analyze_loop run loads emit rest
                 (AList.update (key_of p)
                    (VDict [(''solc'', solc),
                            (''slither'', VDict [(''file'', VStr f), (''success'', VBool False),
                                                 (''error'', VStr e)])]) c,
                  w1)"
    if "str_path p = f" "\<not> length p < 3" "print emit (progress_line p) w = Inr w1"
      "run_solc_check run f = Inr solc"
    for p rest c w w1 solc
    using that res by (simp add: loop_step_printed)
  with res show ?thesis by blast
qed

theorem slither_check_not_json_witness:
  "run_slither_check sample_run sample_loads ''contracts-evaluation/modelB/bar.sol'' =
     Inr (VDict [(''file'', VStr ''contracts-evaluation/modelB/bar.sol''),
                 (''success'', VBool False),
                 (''error'', VStr ''Expecting value: line 1 column 1 (char 0)'')])
   \<and> map (\<lambda>kv. fst kv)
        (case aggregate sample_run sample_loads console_ok
                [[''contracts-evaluation'', ''modelB'', ''bar.sol''],
                 [''contracts-evaluation'', ''modelA'', ''foo.sol'']] of
           Inr agg \<Rightarrow> agg | Inl e \<Rightarrow> [])
      = [''modelB/bar'', ''modelA/foo'']"
  using slither_check_not_json [of sample_run "''contracts-evaluation/modelB/bar.sol''"
          "\<lparr>returncode = 0, stdout = '''', stderr = ''Traceback''\<rparr>" "''Traceback''" sample_loads
          "''Expecting value: line 1 column 1 (char 0)''" console_ok]
  by (simp add: run_eval sample_run_def sample_loads_def console_ok_def)

text \<open>
  Claim C5, as the specification states it: a tool that cannot be launched gives a
  result with \<open>success\<close> false and the exception's text, no exception leaves the
  processing of a file, and every failure of a file is recorded while the batch
  continues. The first part holds. The others fail: the progress line is printed
  outside every \<^verbatim>\<open>try\<close>, so with a closed console the exception of \<^verbatim>\<open>print\<close> ends
  the batch; and the failure to launch the tools on \<^verbatim>\<open>modelA/foo.sol\<close> is in no entry
  of the aggregate once \<^verbatim>\<open>modelA/sub/foo.sol\<close> has been stored under the same key.
\<close>

theorem failure_recorded_counterexample:
  "aggregate tools_missing sample_loads console_closed sample_discovered
     = Inl (Exc ''[Errno 32] Broken pipe'')
   \<and> run_solc_check flaky_run ''contracts-evaluation/modelA/foo.sol'' =
       Inr (VDict [(''file'', VStr ''contracts-evaluation/modelA/foo.sol''),
                   (''success'', VBool False),
                   (''error'', VStr ''[Errno 11] Resource temporarily unavailable'')])
   \<and> aggregate flaky_run sample_loads console_ok shadowed_paths =
       Inr [(''modelA/foo'',
             VDict [(''solc'', VDict [(''file'', VStr ''contracts-evaluation/modelA/sub/foo.sol''),
                                      (''success'', VBool True),
                                      (''solc_output'', VStr ''AST'')]),
                    (''slither'',
                     VDict [(''file'', VStr ''contracts-evaluation/modelA/sub/foo.sol''),
                            (''success'', VBool False),
                            (''slither_output'', VDict [])])])]"
  by (simp add: run_eval tools_missing_def flaky_run_def sample_run_def sample_loads_def
        console_closed_def console_ok_def sample_discovered_def shadowed_paths_def)

text \<open>
  Claim C5, amended. When a tool cannot be launched (\<^verbatim>\<open>subprocess.run\<close> raises an
  instance of \<^verbatim>\<open>Exception\<close>), the check returns a result with \<open>success\<close> false and an
  \<open>error\<close> field equal to the exception's text. When the tools and the parser raise
  nothing but instances of \<^verbatim>\<open>Exception\<close>, both checks return a result for every
  path, and a step of the loop on a path that is not skipped either ends the batch
  with the exception of the progress line's \<^verbatim>\<open>print\<close>, or stores the two results under
  the path's key and goes on with the paths that are left. When every progress line
  is printed the batch ends with an aggregate, and an aggregate holds under the key
  of a path the two results of that path when no later path has the same key.
\<close>

theorem launch_failure_recorded:
  assumes "\<forall>argv. catchable (run argv)" and "\<forall>s. catchable (loads s)"
  shows "(\<forall>f e. run [''solc'', ''--ast-compact-json'', ''--optimize'', f] = Inl (Exc e) \<longrightarrow>
            run_solc_check run f =
              Inr (VDict [(''file'', VStr f), (''success'', VBool False), (''error'', VStr e)]))
       \<and> (\<forall>f e. run [''slither'', f, ''--json'', ''-''] = Inl (Exc e) \<longrightarrow>
            run_slither_check run loads f =
              Inr (VDict [(''file'', VStr f), (''success'', VBool False), (''error'', VStr e)]))
       \<and> (\<forall>p. \<exists>solc slither.
              run_solc_check run (str_path p) = Inr solc
            \<and> run_slither_check run loads (str_path p) = Inr slither
            \<and> (\<forall>rest c w w1. \<not> length p < 3 \<and> print emit (progress_line p) w = Inr w1 \<longrightarrow>
                  analyze_loop run loads emit (p # rest) (c, w) =
                    analyze_loop run loads emit rest
                      (AList.update (key_of p)
                         (VDict [(''solc'', solc), (''slither'', slither)]) c,
                       w1))
            \<and> (\<forall>rest c w e. \<not> length p < 3 \<and> print emit (progress_line p) w = Inl e \<longrightarrow>
                  analyze_loop run loads emit (p # rest) (c, w) = Inl e))
       \<and> ((\<forall>p\<in>set discovered. \<not> length p < 3 \<longrightarrow> emit (progress_line p) = None) \<longrightarrow>
            (\<exists>agg. aggregate run loads emit discovered = Inr agg))
       \<and> (\<forall>agg ps p qs.
             aggregate run loads emit discovered = Inr agg \<and> discovered = ps @ p # qs
               \<and> \<not> length p < 3
               \<and> (\<forall>q\<in>set qs. \<not> length q < 3 \<longrightarrow> key_of q \<noteq> key_of p) \<longrightarrow>
             (\<exists>solc slither. run_solc_check run (str_path p) = Inr solc
                \<and> run_slither_check run loads (str_path p) = Inr slither
                \<and> map_of agg (key_of p)
                    = Some (VDict [(''solc'', solc), (''slither'', slither)])))"
proof (intro conjI)
  show "\<forall>f e. run [''solc'', ''--ast-compact-json'', ''--optimize'', f] = Inl (Exc e) \<longrightarrow>
            run_solc_check run f =
              Inr (VDict [(''file'', VStr f), (''success'', VBool False), (''error'', VStr e)])"
    using run_solc_check_raised by blast
  show "\<forall>f e. run [''slither'', f, ''--json'', ''-''] = Inl (Exc e) \<longrightarrow>
            run_slither_check run loads f =
              Inr (VDict [(''file'', VStr f), (''success'', VBool False), (''error'', VStr e)])"
    using run_slither_check_raised by blast
  show "\<forall>p. \<exists>solc slither.
              run_solc_check run (str_path p) = Inr solc
            \<and> run_slither_check run loads (str_path p) = Inr slither
            \<and> (\<forall>rest c w w1. \<not> length p < 3 \<and> print emit (progress_line p) w = Inr w1 \<longrightarrow>
                  analyze_loop run loads emit (p # rest) (c, w) =
                    analyze_loop run loads emit rest
                      (AList.update (key_of p)
                         (VDict [(''solc'', solc), (''slither'', slither)]) c,
                       w1))
            \<and> (\<forall>rest c w e. \<not> length p < 3 \<and> print emit (progress_line p) w = Inl e \<longrightarrow>
                  analyze_loop run loads emit (p # rest) (c, w) = Inl e)"
  proof
    fix p
    have "catchable (run [''solc'', ''--ast-compact-json'', ''--optimize'', str_path p])"
      using assms(1) by blast
    then obtain a where a: "run_solc_check run (str_path p) = Inr a"
      using run_solc_check_returns by blast
    have "catchable (run [''slither'', str_path p, ''--json'', ''-''])"
      using assms(1) by blast
    then obtain b where b: "run_slither_check run loads (str_path p) = Inr b"
      using run_slither_check_returns assms(2) by blast
    have stored: "\<forall>rest c w w1.
                  \<not> length p < 3 \<and> print emit (progress_line p) w = Inr w1 \<longrightarrow>
                  analyze_loop run loads emit (p # rest) (c, w) =
                    analyze_loop run loads emit rest
                      (AList.update (key_of p) (VDict [(''solc'', a), (''slither'', b)]) c, w1)"
      using a b by (simp add: loop_step_printed)
    have raised: "\<forall>rest c w e.
                  \<not> length p < 3 \<and> print emit (progress_line p) w = Inl e \<longrightarrow>
                  analyze_loop run loads emit (p # rest) (c, w) = Inl e"
      by (simp add: loop_step_deep)
    from a b stored raised
    show "\<exists>solc slither.
              run_solc_check run (str_path p) = Inr solc
            \<and> run_slither_check run loads (str_path p) = Inr slither
            \<and> (\<forall>rest c w w1. \<not> length p < 3 \<and> print emit (progress_line p) w = Inr w1 \<longrightarrow>
                  analyze_loop run loads emit (p # rest) (c, w) =
                    analyze_loop run loads emit rest
                      (AList.update (key_of p)
                         (VDict [(''solc'', solc), (''slither'', slither)]) c,
                       w1))
            \<and> (\<forall>rest c w e. \<not> length p < 3 \<and> print emit (progress_line p) w = Inl e \<longrightarrow>
                  analyze_loop run loads emit (p # rest) (c, w) = Inl e)"
      by blast
  qed
  show "(\<forall>p\<in>set discovered. \<not> length p < 3 \<longrightarrow> emit (progress_line p) = None) \<longrightarrow>
            (\<exists>agg. aggregate run loads emit discovered = Inr agg)"
    using aggregate_returns [OF assms] by blast
  show "\<forall>agg ps p qs.
             aggregate run loads emit discovered = Inr agg \<and> discovered = ps @ p # qs
               \<and> \<not> length p < 3
               \<and> (\<forall>q\<in>set qs. \<not> length q < 3 \<longrightarrow> key_of q \<noteq> key_of p) \<longrightarrow>
             (\<exists>solc slither. run_solc_check run (str_path p) = Inr solc
                \<and> run_slither_check run loads (str_path p) = Inr slither
                \<and> map_of agg (key_of p)
                    = Some (VDict [(''solc'', solc), (''slither'', slither)]))"
  proof (intro allI impI)
    fix agg ps p qs
    assume h: "aggregate run loads emit discovered = Inr agg \<and> discovered = ps @ p # qs
               \<and> \<not> length p < 3
               \<and> (\<forall>q\<in>set qs. \<not> length q < 3 \<longrightarrow> key_of q \<noteq> key_of p)"
    then have "aggregate run loads emit (ps @ p # qs) = Inr agg" by auto
    from aggregate_last_writer [OF this] h
    show "\<exists>solc slither. run_solc_check run (str_path p) = Inr solc
                \<and> run_slither_check run loads (str_path p) = Inr slither
                \<and> map_of agg (key_of p)
                    = Some (VDict [(''solc'', solc), (''slither'', slither)])"
      by blast
  qed
qed

theorem launch_failure_recorded_witness:
  "(\<forall>argv. catchable (tools_missing argv)) \<and> (\<forall>s. catchable (sample_loads s))
   \<and> run_solc_check tools_missing ''contracts-evaluation/modelA/foo.sol'' =
       Inr (VDict [(''file'', VStr ''contracts-evaluation/modelA/foo.sol''),
                   (''success'', VBool False),
                   (''error'', VStr ''[Errno 2] No such file or directory'')])
   \<and> run_slither_check tools_missing sample_loads ''contracts-evaluation/modelA/foo.sol'' =
       Inr (VDict [(''file'', VStr ''contracts-evaluation/modelA/foo.sol''),
                   (''success'', VBool False),
                   (''error'', VStr ''[Errno 2] No such file or directory'')])
   \<and> aggregate tools_missing sample_loads console_ok sample_discovered =
       Inr [(''modelA/foo'',
             VDict [(''solc'', VDict [(''file'', VStr ''contracts-evaluation/modelA/foo.sol''),
                                      (''success'', VBool False),
                                      (''error'', VStr ''[Errno 2] No such file or directory'')]),
                    (''slither'',
                     VDict [(''file'', VStr ''contracts-evaluation/modelA/foo.sol''),
                            (''success'', VBool False),
                            (''error'', VStr ''[Errno 2] No such file or directory'')])]),
            (''modelB/bar'',
             VDict [(''solc'', VDict [(''file'', VStr ''contracts-evaluation/modelB/bar.sol''),
                                      (''success'', VBool False),
                                      (''error'', VStr ''[Errno 2] No such file or directory'')]),
                    (''slither'',
                     VDict [(''file'', VStr ''contracts-evaluation/modelB/bar.sol''),
                            (''success'', VBool False),
                            (''error'', VStr ''[Errno 2] No such file or directory'')])])]"
proof -
  have c: "\<forall>argv. catchable (tools_missing argv)" by (simp add: tools_missing_def)
  have l: "\<forall>s. catchable (sample_loads s)" by (simp add: sample_loads_def)
  from launch_failure_recorded [OF c l, of console_ok sample_discovered] c l show ?thesis
    by (simp add: run_eval tools_missing_def sample_loads_def sample_discovered_def
          console_ok_def)
qed

section \<open>The aggregate report\<close>

lemma sample_aggregate_eval:
  "aggregate sample_run sample_loads console_ok sample_discovered = Inr sample_aggregate"
  by (simp add: run_eval sample_run_def sample_loads_def sample_discovered_def
        sample_aggregate_def console_ok_def)

text \<open>
  Claim C1, as the specification states it: the key of a file that is not skipped is
  the name of its parent directory, a slash and the filename without its extension.
  It fails for a file that lies deeper than one directory below the root: the loop
  takes \<^verbatim>\<open>parts[1]\<close>, the model folder, and \<^verbatim>\<open>modelA/sub/foo.sol\<close> is stored under
  \<^verbatim>\<open>modelA/foo\<close>, not under \<^verbatim>\<open>sub/foo\<close>.
\<close>

theorem key_is_parent_name_counterexample:
  "aggregate sample_run sample_loads console_ok [nested_path] =
     Inr [(''modelA/foo'',
           VDict [(''solc'', VDict [(''file'', VStr ''contracts-evaluation/modelA/sub/foo.sol''),
                                    (''success'', VBool True),
                                    (''solc_output'', VStr ''AST'')]),
                  (''slither'', VDict [(''file'', VStr ''contracts-evaluation/modelA/sub/foo.sol''),
                                       (''success'', VBool False),
                                       (''slither_output'', VDict [])])])]
   \<and> parent_name nested_path = ''sub''
   \<and> stem nested_path = ''foo''"
  by (simp add: run_eval sample_run_def sample_loads_def nested_path_def console_ok_def)

text \<open>
  Claim C1, amended. For every discovered path that is not skipped, the aggregate has
  an entry under the second component of the path (the model folder directly below
  the root), a slash and the stem of the filename; the entry holds the two results
  of a discovered path with that key. The stem of \<^verbatim>\<open>b.sol\<close> is \<^verbatim>\<open>b\<close> when \<^verbatim>\<open>b\<close> is
  not empty, and the stem of the file \<^verbatim>\<open>.sol\<close> is \<^verbatim>\<open>.sol\<close>. The parent directory's
  name is the last component but one: it is the second component when the path has
  exactly three components.
\<close>

theorem aggregate_key:
  assumes "aggregate run loads emit discovered = Inr agg"
    and "p \<in> set discovered" and "\<not> length p < 3"
  shows "(\<exists>q solc slither. q \<in> set discovered \<and> \<not> length q < 3 \<and> key_of q = key_of p
            \<and> run_solc_check run (str_path q) = Inr solc
            \<and> run_slither_check run loads (str_path q) = Inr slither
            \<and> map_of agg (p ! 1 @ ''/'' @ stem p)
                = Some (VDict [(''solc'', solc), (''slither'', slither)]))
       \<and> (\<forall>b. last p = b @ ''.sol'' \<and> b \<noteq> [] \<longrightarrow> stem p = b)
       \<and> (last p = ''.sol'' \<longrightarrow> stem p = ''.sol'')
       \<and> parent_name p = p ! (length p - 2)
       \<and> (length p = 3 \<longrightarrow> p ! 1 = parent_name p)"
proof (intro conjI allI impI)
  have "key_of p \<in> fst ` set agg"
    unfolding aggregate_keys [OF assms(1)] using assms(2,3) by blast
  then obtain v where v: "(key_of p, v) \<in> set agg" by force
  from aggregate_entry [OF assms(1) v] obtain q solc slither where
    q: "q \<in> set discovered" "\<not> length q < 3"
       "run_solc_check run (str_path q) = Inr solc"
       "run_slither_check run loads (str_path q) = Inr slither"
       "key_of p = key_of q" "v = VDict [(''solc'', solc), (''slither'', slither)]"
    by blast
  have "map_of agg (key_of p) = Some v"
    using v aggregate_distinct [OF assms(1)] by simp
  then have "map_of agg (p ! 1 @ ''/'' @ stem p)
               = Some (VDict [(''solc'', solc), (''slither'', slither)])"
    using q(6) by (simp add: key_of_def)
  with q(1-5) show "\<exists>q solc slither. q \<in> set discovered \<and> \<not> length q < 3 \<and> key_of q = key_of p
            \<and> run_solc_check run (str_path q) = Inr solc
            \<and> run_slither_check run loads (str_path q) = Inr slither
            \<and> map_of agg (p ! 1 @ ''/'' @ stem p)
                = Some (VDict [(''solc'', solc), (''slither'', slither)])"
    by metis
next
  fix b
  assume b: "last p = b @ ''.sol'' \<and> b \<noteq> []"
  moreover have "p \<noteq> []" using assms(3) by auto
  ultimately show "stem p = b" using stem_sol by blast
next
  assume "last p = ''.sol''"
  moreover have "p \<noteq> []" using assms(3) by auto
  ultimately show "stem p = ''.sol''" by (rule stem_hidden)
next
  show "parent_name p = p ! (length p - 2)" using assms(3) by (rule parent_name_nth)
next
  assume "length p = 3"
  then show "p ! 1 = parent_name p" by (simp add: parent_name_3)
qed

theorem aggregate_key_witness:
  "map_of sample_aggregate ''modelA/foo'' =
     Some (VDict [(''solc'', VDict [(''file'', VStr ''contracts-evaluation/modelA/foo.sol''),
                                    (''success'', VBool True),
                                    (''solc_output'', VStr ''AST'')]),
                  (''slither'', VDict [(''file'', VStr ''contracts-evaluation/modelA/foo.sol''),
                                       (''success'', VBool False),
                                       (''slither_output'', VDict [])])])
   \<and> stem [''contracts-evaluation'', ''modelA'', ''foo.sol''] = ''foo''
   \<and> parent_name [''contracts-evaluation'', ''modelA'', ''foo.sol''] = ''modelA''"
  using aggregate_key [OF sample_aggregate_eval,
          of "[''contracts-evaluation'', ''modelA'', ''foo.sol'']"]
  by (simp add: sample_discovered_def sample_aggregate_def stem_def name_def rfind_def
        parent_name_def Let_def)

text \<open>
  Claim C6. A discovered path with fewer than three components contributes nothing:
  the aggregate is that of the other paths alone. The aggregate has one entry for
  each key of a path that is not skipped (its keys are distinct and are exactly
  those keys), and every entry holds the compiler's and the linter's result of a
  discovered path with that key: the last one discovered.
\<close>

theorem aggregate_entries:
  assumes "aggregate run loads emit discovered = Inr agg"
  shows "aggregate run loads emit (filter (\<lambda>p. \<not> length p < 3) discovered) = Inr agg
       \<and> distinct (map fst agg)
       \<and> fst ` set agg = key_of ` {p \<in> set discovered. \<not> length p < 3}
       \<and> (\<forall>kv\<in>set agg. \<exists>p solc slither. p \<in> set discovered \<and> \<not> length p < 3
              \<and> run_solc_check run (str_path p) = Inr solc
              \<and> run_slither_check run loads (str_path p) = Inr slither
              \<and> kv = (key_of p, VDict [(''solc'', solc), (''slither'', slither)]))
       \<and> (\<forall>ps p qs.
             discovered = ps @ p # qs \<and> \<not> length p < 3
               \<and> (\<forall>q\<in>set qs. \<not> length q < 3 \<longrightarrow> key_of q \<noteq> key_of p) \<longrightarrow>
             (\<exists>solc slither. run_solc_check run (str_path p) = Inr solc
                \<and> run_slither_check run loads (str_path p) = Inr slither
                \<and> map_of agg (key_of p)
                    = Some (VDict [(''solc'', solc), (''slither'', slither)])))"
proof (intro conjI ballI allI impI)
  show "aggregate run loads emit (filter (\<lambda>p. \<not> length p < 3) discovered) = Inr agg"
    using assms by (simp add: aggregate_filter)
  show "distinct (map fst agg)" using assms by (rule aggregate_distinct)
  show "fst ` set agg = key_of ` {p \<in> set discovered. \<not> length p < 3}"
    using assms by (rule aggregate_keys)
next
  fix kv
  assume "kv \<in> set agg"
  with assms show "\<exists>p solc slither. p \<in> set discovered \<and> \<not> length p < 3
              \<and> run_solc_check run (str_path p) = Inr solc
              \<and> run_slither_check run loads (str_path p) = Inr slither
              \<and> kv = (key_of p, VDict [(''solc'', solc), (''slither'', slither)])"
    by (rule aggregate_entry)
next
  fix ps p qs
  assume h: "discovered = ps @ p # qs \<and> \<not> length p < 3
               \<and> (\<forall>q\<in>set qs. \<not> length q < 3 \<longrightarrow> key_of q \<noteq> key_of p)"
  then have "aggregate run loads emit (ps @ p # qs) = Inr agg" using assms by simp
  from aggregate_last_writer [OF this] h
  show "\<exists>solc slither. run_solc_check run (str_path p) = Inr solc
                \<and> run_slither_check run loads (str_path p) = Inr slither
                \<and> map_of agg (key_of p)
                    = Some (VDict [(''solc'', solc), (''slither'', slither)])"
    by blast
qed

theorem aggregate_entries_witness:
  "aggregate sample_run sample_loads console_ok sample_discovered = Inr sample_aggregate
   \<and> aggregate sample_run sample_loads console_ok
       [[''contracts-evaluation'', ''modelA'', ''foo.sol''],
        [''contracts-evaluation'', ''modelB'', ''bar.sol'']] = Inr sample_aggregate
   \<and> map (\<lambda>kv. fst kv) sample_aggregate = [''modelA/foo'', ''modelB/bar'']"
  using aggregate_entries [OF sample_aggregate_eval] sample_aggregate_eval
  by (simp add: sample_discovered_def sample_aggregate_def)

section \<open>The report file\<close>

text \<open>
  Claim C7. After a run that ends, the report file holds the JSON text of that run's
  aggregate, dumped with \<^verbatim>\<open>indent=2\<close>, whatever the file held before: a second run
  replaces the report of the first with the text of its own aggregate and merges
  nothing.
\<close>

theorem report_file_overwritten:
  assumes "analyze_all_contracts run1 loads1 dumps emit1 discovered1 w0 = Inr w1"
    and "analyze_all_contracts run2 loads2 dumps emit2 discovered2 w1 = Inr w2"
  shows "\<exists>agg1 agg2.
           aggregate run1 loads1 emit1 discovered1 = Inr agg1
         \<and> files w1 REPORT_FILE = Some (dumps (VDict agg1) 2)
         \<and> aggregate run2 loads2 emit2 discovered2 = Inr agg2
         \<and> files w2 REPORT_FILE = Some (dumps (VDict agg2) 2)"
proof -
  have one: "\<exists>agg. aggregate run loads emit discovered = Inr agg
               \<and> files w' REPORT_FILE = Some (dumps (VDict agg) 2)"
    if "analyze_all_contracts run loads dumps emit discovered w = Inr w'"
    for run loads emit discovered w w'
  proof (cases "analyze_loop run loads emit discovered ([], w)")
    case (Inl e)
    with that show ?thesis by (simp add: analyze_all_contracts_def)
  next
    case (Inr s)
    obtain c wl where s: "s = (c, wl)" by (cases s)
    from that Inr s have "files w' REPORT_FILE = Some (dumps (VDict c) 2)"
      by (auto simp: analyze_all_contracts_def Let_def print_written)
    moreover have "aggregate run loads emit discovered = Inr c"
      using Inr s aggregate_loop by blast
    ultimately show ?thesis by blast
  qed
  from one [OF assms(1)] one [OF assms(2)] show ?thesis by blast
qed

theorem report_file_overwritten_witness:
  "\<exists>w1 w2.
     analyze_all_contracts sample_run sample_loads sample_dumps console_ok sample_discovered
       \<lparr>console = [], files = [REPORT_FILE \<mapsto> ''stale'']\<rparr> = Inr w1
   \<and> files w1 REPORT_FILE = Some ''{modelA/foo,modelB/bar}''
   \<and> analyze_all_contracts tools_missing sample_loads sample_dumps console_ok
       [[''contracts-evaluation'', ''modelC'', ''baz.sol'']] w1 = Inr w2
   \<and> files w2 REPORT_FILE = Some ''{modelC/baz}''"
proof -
  obtain w1 where r1:
    "analyze_all_contracts sample_run sample_loads sample_dumps console_ok sample_discovered
       \<lparr>console = [], files = [REPORT_FILE \<mapsto> ''stale'']\<rparr> = Inr w1"
    by (simp add: run_eval sample_run_def sample_loads_def sample_discovered_def
          console_ok_def)
  obtain w2 where r2:
    "analyze_all_contracts tools_missing sample_loads sample_dumps console_ok
       [[''contracts-evaluation'', ''modelC'', ''baz.sol'']] w1 = Inr w2"
    by (simp add: run_eval tools_missing_def console_ok_def)
  from report_file_overwritten [OF r1 r2] obtain agg1 agg2 where
    a1: "aggregate sample_run sample_loads console_ok sample_discovered = Inr agg1"
    and f1: "files w1 REPORT_FILE = Some (sample_dumps (VDict agg1) 2)"
    and a2: "aggregate tools_missing sample_loads console_ok
               [[''contracts-evaluation'', ''modelC'', ''baz.sol'']] = Inr agg2"
    and f2: "files w2 REPORT_FILE = Some (sample_dumps (VDict agg2) 2)"
    by blast
  from a1 have "agg1 = sample_aggregate" by (simp add: sample_aggregate_eval)
  with f1 have g1: "files w1 REPORT_FILE = Some ''{modelA/foo,modelB/bar}''"
    by (simp add: sample_dumps_def sample_aggregate_def)
  from a2 have "map fst agg2 = [''modelC/baz'']"
    by (auto simp add: run_eval tools_missing_def console_ok_def)
  with f2 have g2: "files w2 REPORT_FILE = Some ''{modelC/baz}''"
    by (simp add: sample_dumps_def)
  from r1 r2 g1 g2 show ?thesis by blast
qed

end
